theory Spec2Isabelle
  imports Main
begin

section \<open>Download validation and auto-repair of the software manager (V3)\<close>

text \<open>
  A shallow embedding of \<^verbatim>\<open>software_manager_v3.py\<close>: the classes
  \<^verbatim>\<open>FileValidator\<close>, \<^verbatim>\<open>AutoCorrector\<close> and \<^verbatim>\<open>SoftwareDownloader\<close>.
  Logging calls have no effect on any result and are left out.
\<close>

subsection \<open>Strings, exceptions and messages\<close>

text \<open>
  A Python \<^verbatim>\<open>str\<close> is a sequence of Unicode code points, so it is a list of
  naturals here; \<open>ustr\<close> embeds an ASCII literal. File contents are lists of bytes,
  also naturals.
\<close>

type_synonym pystr = "nat list"

definition ustr :: "string \<Rightarrow> pystr" where
  "ustr s = map of_char s"

text \<open>The exceptions the code can meet; the text says where each one comes from.\<close>

datatype py_error =
    KeyError string
  | ValueError string
  | OSError string

text \<open>
  The reason strings of the source are Chinese literals and f-strings; each one is a
  constructor, with the values the f-string interpolates as arguments.
\<close>

datatype message =
    FileNotFound                \<comment> \<open>"file does not exist" (lines 123, 150)\<close>
  | SizeMismatch int int        \<comment> \<open>"file size mismatch: expected .., actual .." (line 130)\<close>
  | HashMismatch pystr pystr    \<comment> \<open>"file hash mismatch: expected .., actual .." (line 136)\<close>
  | FileIntact                  \<comment> \<open>"file intact" (lines 142, 244)\<close>
  | ValidationFailed py_error   \<comment> \<open>"file validation failed: {e}" (line 145)\<close>
  | CorrectionSucceeded         \<comment> \<open>"correction succeeded" (line 267)\<close>
  | RetriesExhausted int        \<comment> \<open>"still failing after {max_retries} attempts" (line 280)\<close>
  | DownloadSucceeded           \<comment> \<open>"download succeeded" (line 308)\<close>
  | ErrorText py_error          \<comment> \<open>\<^verbatim>\<open>str(e)\<close> (lines 312, 333)\<close>
  | PathWritable                \<comment> \<open>"path writable" (line 327)\<close>
  | PathNotWritable             \<comment> \<open>"no write permission on path" (line 329)\<close>
  | SoftwareInfoMissing         \<comment> \<open>"software information does not exist" (line 364)\<close>

subsection \<open>The interpreter's library\<close>

text \<open>
  The functions of the Python standard library that the code calls are not code of this
  repository. The embedding takes them as parameters, so every theorem below holds for
  whatever they compute:
  \<^item> \<open>urlparse_path url\<close> is \<^verbatim>\<open>urlparse(url).path\<close>, which raises ValueError on some
    inputs;
  \<^item> \<open>os_path_basename\<close> is \<^verbatim>\<open>os.path.basename\<close>;
  \<^item> \<open>str_isalnum\<close> is \<^verbatim>\<open>str.isalnum\<close> on one character and \<open>str_lower\<close> is
    \<^verbatim>\<open>str.lower\<close>, both defined by the Unicode tables;
  \<^item> \<open>sha256_hexdigest\<close> is what \<^verbatim>\<open>hashlib.new('sha256')\<close> gives for the bytes of a
    file;
  \<^item> \<open>path_join d f\<close> is \<^verbatim>\<open>d / f\<close> of \<^verbatim>\<open>pathlib\<close>.
\<close>

record pylib =
  urlparse_path :: "pystr \<Rightarrow> py_error + pystr"
  os_path_basename :: "pystr \<Rightarrow> pystr"
  str_isalnum :: "nat \<Rightarrow> bool"
  str_lower :: "pystr \<Rightarrow> pystr"
  sha256_hexdigest :: "nat list \<Rightarrow> pystr"
  path_join :: "pystr \<Rightarrow> pystr \<Rightarrow> pystr"

subsection \<open>Software records\<close>

text \<open>
  \<^verbatim>\<open>software_info\<close> is a dict read from the catalog. The code reads the keys
  \<^verbatim>\<open>filename\<close>, \<^verbatim>\<open>name\<close>, \<^verbatim>\<open>url\<close>, \<^verbatim>\<open>hash\<close> and \<^verbatim>\<open>size\<close>; a key that is
  absent is \<open>None\<close>.
\<close>

record software_info =
  sw_filename :: "pystr option"
  sw_name :: "pystr option"
  sw_url :: "pystr option"
  sw_hash :: "pystr option"
  sw_size :: "int option"

subsection \<open>AutoCorrector.\_generate\_filename\<close>

text \<open>\<^verbatim>\<open>sub in s\<close> on strings: \<open>sub\<close> occurs in \<open>s\<close> as a contiguous piece.\<close>

fun str_in :: "pystr \<Rightarrow> pystr \<Rightarrow> bool" where
  "str_in sub [] = (sub = [])"
| "str_in sub (c # cs) = (take (length sub) (c # cs) = sub \<or> str_in sub cs)"

definition common_extensions :: "pystr list" where
  "common_extensions =
     [ustr ''.exe'', ustr ''.msi'', ustr ''.zip'', ustr ''.rar'', ustr ''.7z'',
      ustr ''.dmg'', ustr ''.pkg'', ustr ''.deb'', ustr ''.rpm'']"

text \<open>
  Lines 203 to 207: the loop over the extensions, which stops at the first one that occurs
  in the lower-cased path; \<open>None\<close> is \<^verbatim>\<open>found_ext = None\<close>.
\<close>

fun find_ext :: "pystr list \<Rightarrow> pystr \<Rightarrow> pystr option" where
  "find_ext [] lowered = None"
| "find_ext (ext # exts) lowered =
     (if str_in ext lowered then Some ext else find_ext exts lowered)"

text \<open>
  Lines 210 and 220: every character that is neither alphanumeric nor one of
  \<^verbatim>\<open>._- \<close> becomes an underscore.
\<close>

primrec safe_name :: "pylib \<Rightarrow> pystr \<Rightarrow> pystr" where
  "safe_name L [] = []"
| "safe_name L (c # cs) =
     (if str_isalnum L c \<or> c \<in> set (ustr ''._- '') then c else of_char CHR ''_'')
       # safe_name L cs"

text \<open>
  Lines 181 to 222. \<^verbatim>\<open>if not filename\<close> holds for an absent key and for the empty
  string. The only step that can raise is \<^verbatim>\<open>urlparse\<close>.
\<close>

definition generate_filename :: "pylib \<Rightarrow> software_info \<Rightarrow> py_error + pystr" where
  "generate_filename L info =
     (case sw_filename info of
        Some (c # cs) \<Rightarrow> Inr (c # cs)
      | _ \<Rightarrow>
        (let software_name = (case sw_name info of Some n \<Rightarrow> n | None \<Rightarrow> ustr ''unknown'');
             url = (case sw_url info of Some u \<Rightarrow> u | None \<Rightarrow> [])
         in if url \<noteq> [] \<and> url \<noteq> ustr ''builtin'' then
              (case urlparse_path L url of
                 Inl e \<Rightarrow> Inl e
               | Inr url_path \<Rightarrow>
                   (let basename = os_path_basename L url_path
                    in if basename \<noteq> [] \<and> of_char CHR ''.'' \<in> set basename then Inr basename
                       else (case find_ext common_extensions (str_lower L url_path) of
                               Some found_ext \<Rightarrow> Inr (safe_name L software_name @ found_ext)
                             | None \<Rightarrow> Inr (safe_name L software_name @ ustr ''.exe''))))
            else Inr (safe_name L software_name @ ustr ''.exe'')))"

subsection \<open>A concrete library for closed examples\<close>

text \<open>
  The closed examples below need the library functions at concrete inputs. \<open>stdlib\<close>
  follows CPython 3.11 on ASCII text: \<^verbatim>\<open>urllib.parse.urlparse\<close> (its check of the
  characters between brackets and its NFKC check of a non-ASCII host are left out),
  \<^verbatim>\<open>posixpath.basename\<close>, and \<^verbatim>\<open>str.isalnum\<close> and \<^verbatim>\<open>str.lower\<close> restricted to
  ASCII. The digest is a stand-in of the right length, 64 digits: the examples are chosen so
  that no result depends on its value.
\<close>

definition ascii_alpha :: "nat \<Rightarrow> bool" where
  "ascii_alpha c = ((65 \<le> c \<and> c \<le> 90) \<or> (97 \<le> c \<and> c \<le> 122))"

definition ascii_isalnum :: "nat \<Rightarrow> bool" where
  "ascii_isalnum c = (ascii_alpha c \<or> (48 \<le> c \<and> c \<le> 57))"

definition ascii_lower :: "pystr \<Rightarrow> pystr" where
  "ascii_lower s = map (\<lambda>c. if 65 \<le> c \<and> c \<le> 90 then c + 32 else c) s"

definition scheme_char :: "nat \<Rightarrow> bool" where
  "scheme_char c = (ascii_isalnum c \<or> c \<in> set (ustr ''+-.''))"

definition uses_params :: "pystr list" where
  "uses_params =
     [[], ustr ''ftp'', ustr ''hdl'', ustr ''prospero'', ustr ''http'', ustr ''imap'',
      ustr ''https'', ustr ''shttp'', ustr ''rtsp'', ustr ''rtsps'', ustr ''rtspu'',
      ustr ''sip'', ustr ''sips'', ustr ''mms'', ustr ''sftp'', ustr ''tel'']"

text \<open>\<^verbatim>\<open>urlsplit\<close>, lines 486 to 492 of \<^verbatim>\<open>urllib/parse.py\<close>: the scheme and the rest.\<close>

definition split_scheme :: "pystr \<Rightarrow> pystr \<times> pystr" where
  "split_scheme url =
     (let pre = takeWhile (\<lambda>c. c \<noteq> of_char CHR '':'') url
      in if length pre < length url \<and> pre \<noteq> [] \<and> ascii_alpha (hd pre) \<and> list_all scheme_char pre
         then (ascii_lower pre, drop (Suc (length pre)) url)
         else ([], url))"

text \<open>\<^verbatim>\<open>_splitparams\<close>: the last segment of the path is cut at its first semicolon.\<close>

definition split_params :: "pystr \<Rightarrow> pystr" where
  "split_params url =
     (let seg = rev (takeWhile (\<lambda>c. c \<noteq> of_char CHR ''/'') (rev url))
      in take (length url - length seg) url @ takeWhile (\<lambda>c. c \<noteq> of_char CHR '';'') seg)"

definition py_urlparse_path :: "pystr \<Rightarrow> py_error + pystr" where
  "py_urlparse_path url0 =
     (let url1 = filter (\<lambda>c. c \<notin> {9, 10, 13}) (dropWhile (\<lambda>c. c \<le> 32) url0);
          scheme = fst (split_scheme url1);
          url2 = snd (split_scheme url1);
          has_netloc = (take 2 url2 = ustr ''//'');
          delim = (\<lambda>c. c \<in> set (ustr ''/?#''));
          netloc = (if has_netloc then takeWhile (\<lambda>c. \<not> delim c) (drop 2 url2) else []);
          url3 = (if has_netloc then dropWhile (\<lambda>c. \<not> delim c) (drop 2 url2) else url2)
      in if (of_char CHR ''['' \<in> set netloc) \<noteq> (of_char CHR '']'' \<in> set netloc)
         then Inl (ValueError ''Invalid IPv6 URL'')
         else (let url4 = takeWhile (\<lambda>c. c \<noteq> of_char CHR ''#'') url3;
                   url5 = takeWhile (\<lambda>c. c \<noteq> of_char CHR ''?'') url4
               in Inr (if scheme \<in> set uses_params \<and> of_char CHR '';'' \<in> set url5
                       then split_params url5 else url5)))"

definition posix_basename :: "pystr \<Rightarrow> pystr" where
  "posix_basename p = rev (takeWhile (\<lambda>c. c \<noteq> of_char CHR ''/'') (rev p))"

definition posix_join :: "pystr \<Rightarrow> pystr \<Rightarrow> pystr" where
  "posix_join d f = (if take 1 f = ustr ''/'' then f else d @ ustr ''/'' @ f)"

definition stdlib :: pylib where
  "stdlib =
     \<lparr>urlparse_path = py_urlparse_path,
      os_path_basename = posix_basename,
      str_isalnum = ascii_isalnum,
      str_lower = ascii_lower,
      sha256_hexdigest = (\<lambda>bytes. replicate 64 (of_char CHR ''0'')),
      path_join = posix_join\<rparr>"

subsection \<open>Files, the network and the trace of effects\<close>

text \<open>
  A path is either absent or holds a file. A file on disk has its bytes and three facts
  the code depends on:
  \<^item> \<open>accessible\<close>: \<^verbatim>\<open>stat\<close> succeeds. It fails with PermissionError for a file in a
    directory that the process may not search, and then nothing else can be done with
    the file either;
  \<^item> \<open>readable\<close>: \<^verbatim>\<open>open(path, 'rb')\<close> succeeds;
  \<^item> \<open>removable\<close>: \<^verbatim>\<open>unlink\<close> succeeds (a file in use on Windows cannot be removed).
\<close>

record disk_file =
  content :: "nat list"
  accessible :: bool
  readable :: bool
  removable :: bool

text \<open>
  \<^verbatim>\<open>Path.exists()\<close> calls \<^verbatim>\<open>stat\<close> and returns False for a missing path only: of the
  errors of \<^verbatim>\<open>stat\<close> it swallows ENOENT, ENOTDIR, EBADF and ELOOP and raises every other
  one again (\<^verbatim>\<open>pathlib.py\<close> of CPython 3.8 to 3.13), so PermissionError leaves it.
\<close>

definition path_exists :: "(pystr \<rightharpoonup> disk_file) \<Rightarrow> pystr \<Rightarrow> py_error + bool" where
  "path_exists files file_path =
     (case files file_path of
        None \<Rightarrow> Inr False
      | Some f \<Rightarrow> if accessible f then Inr True else Inl (OSError ''Permission denied''))"

text \<open>
  What \<^verbatim>\<open>correct_path_issues\<close> can meet in the download directory: the directory is
  absent and \<^verbatim>\<open>mkdir\<close> creates it, it is writable, writing raises PermissionError, or
  some other exception is raised on the way.
\<close>

datatype dir_state = DirAbsent | DirWritable | DirNoPermission | DirFaulty py_error

text \<open>
  The effects that the properties below speak of (removing a file, issuing a GET, sleeping)
  are recorded in a trace, the oldest event first.
\<close>

datatype event = Unlink pystr | HttpGet pystr | Sleep nat

record world =
  fs :: "pystr \<rightharpoonup> disk_file"
  dirs :: "pystr \<Rightarrow> dir_state"
  trace :: "event list"

text \<open>
  What one run of \<^verbatim>\<open>\_download\_file\<close> meets after it has issued its GET: an exception
  before the target is opened for writing (the request, the status check, \<^verbatim>\<open>mkdir\<close> or
  \<^verbatim>\<open>open\<close>), an exception after some chunks are written, or the whole body written. The
  file it carries is the one left on disk. The environment is any function from the number
  of GETs issued so far and the URL to such an outcome.
\<close>

datatype response =
    RequestFails py_error
  | Interrupted disk_file py_error
  | Completed disk_file

type_synonym env = "nat \<Rightarrow> pystr \<Rightarrow> response"

fun is_get :: "event \<Rightarrow> bool" where
  "is_get (HttpGet u) = True"
| "is_get e = False"

definition http_gets :: "world \<Rightarrow> nat" where
  "http_gets w = length (filter is_get (trace w))"

definition log_event :: "event \<Rightarrow> world \<Rightarrow> world" where
  "log_event e w = w\<lparr>trace := trace w @ [e]\<rparr>"

text \<open>The events a run has added to the trace.\<close>

definition new_events :: "world \<Rightarrow> world \<Rightarrow> event list" where
  "new_events w w' = drop (length (trace w)) (trace w')"

text \<open>
  The file that the GET number \<open>k\<close> left on disk, if it left one. And where the file at a
  path can come from when a run has led from \<open>w\<close> to \<open>w'\<close>: the path holds what it held
  before, or nothing, or a file that one of the GETs of the run left there.
\<close>

definition delivered_by :: "env \<Rightarrow> pystr \<Rightarrow> nat \<Rightarrow> disk_file \<Rightarrow> bool" where
  "delivered_by E url k f =
     (case E k url of
        RequestFails e \<Rightarrow> False
      | Interrupted g e \<Rightarrow> g = f
      | Completed g \<Rightarrow> g = f)"

definition file_origin :: "env \<Rightarrow> pystr \<Rightarrow> pystr \<Rightarrow> world \<Rightarrow> world \<Rightarrow> bool" where
  "file_origin E url file_path w w' =
     (http_gets w \<le> http_gets w' \<and>
      (fs w' file_path = fs w file_path \<or> fs w' file_path = None \<or>
       (\<exists>k f. http_gets w \<le> k \<and> k < http_gets w' \<and> fs w' file_path = Some f
              \<and> delivered_by E url k f)))"

subsection \<open>FileValidator\<close>

text \<open>
  Lines 107 to 117: any exception, here a file that cannot be opened, gives the empty
  string.
\<close>

definition calculate_file_hash :: "pylib \<Rightarrow> (pystr \<rightharpoonup> disk_file) \<Rightarrow> pystr \<Rightarrow> pystr" where
  "calculate_file_hash L files file_path =
     (case files file_path of
        None \<Rightarrow> []
      | Some f \<Rightarrow>
          if accessible f \<and> readable f then sha256_hexdigest L (content f) else [])"

text \<open>
  Lines 125 to 142, the body of the \<^verbatim>\<open>try\<close>: \<open>Inl\<close> is an exception raised inside it.
  \<^verbatim>\<open>if expected_hash\<close> holds for a hash that is present and not empty.
\<close>

definition validate_checks ::
  "pylib \<Rightarrow> (pystr \<rightharpoonup> disk_file) \<Rightarrow> pystr \<Rightarrow> pystr option \<Rightarrow> int option
     \<Rightarrow> py_error + bool \<times> message" where
  "validate_checks L files file_path expected_hash expected_size =
     (case files file_path of
        None \<Rightarrow> Inl (OSError ''No such file or directory'')
      | Some f \<Rightarrow>
         (let actual_size = int (length (content f));
              size_differs =
                (case expected_size of Some es \<Rightarrow> actual_size \<noteq> es | None \<Rightarrow> False);
              actual_hash = calculate_file_hash L files file_path;
              hash_differs =
                (case expected_hash of
                   Some (c # cs) \<Rightarrow> str_lower L actual_hash \<noteq> str_lower L (c # cs)
                 | _ \<Rightarrow> False)
          in if expected_size \<noteq> None \<and> \<not> accessible f then Inl (OSError ''Permission denied'')
             else if size_differs then Inr (False, SizeMismatch (the expected_size) actual_size)
             else if hash_differs then Inr (False, HashMismatch (the expected_hash) actual_hash)
             else if accessible f \<and> readable f then Inr (True, FileIntact)
             else Inl (OSError ''Permission denied'')))"

text \<open>
  Lines 119 to 145: the existence check of line 122, which stands before the \<^verbatim>\<open>try\<close>,
  then the body under its handler. \<open>Inl\<close> is an exception that leaves the function.
\<close>

definition validate_file_integrity ::
  "pylib \<Rightarrow> (pystr \<rightharpoonup> disk_file) \<Rightarrow> pystr \<Rightarrow> pystr option \<Rightarrow> int option
     \<Rightarrow> py_error + bool \<times> message" where
  "validate_file_integrity L files file_path expected_hash expected_size =
     (case path_exists files file_path of
        Inl e \<Rightarrow> Inl e
      | Inr False \<Rightarrow> Inr (False, FileNotFound)
      | Inr True \<Rightarrow>
          (case validate_checks L files file_path expected_hash expected_size of
             Inl e \<Rightarrow> Inr (False, ValidationFailed e)
           | Inr result \<Rightarrow> Inr result))"

subsection \<open>AutoCorrector: one download\<close>

text \<open>
  \<^verbatim>\<open>file_path.unlink(missing_ok=True)\<close>: nothing happens for an absent path, and a file
  that cannot be removed raises.
\<close>

definition unlink :: "pystr \<Rightarrow> world \<Rightarrow> py_error + world" where
  "unlink file_path w =
     (case fs w file_path of
        None \<Rightarrow> Inr w
      | Some f \<Rightarrow>
          if accessible f \<and> removable f
          then Inr (log_event (Unlink file_path) (w\<lparr>fs := (fs w)(file_path := None)\<rparr>))
          else Inl (OSError ''Permission denied''))"

text \<open>
  Lines 282 to 312. The GET of line 287 is the first effect; every exception after it is
  caught at line 310. \<^verbatim>\<open>expected_size\<close> only decides whether a warning is logged.
\<close>

definition download_file :: "env \<Rightarrow> pystr \<Rightarrow> pystr \<Rightarrow> int \<Rightarrow> world \<Rightarrow> world \<times> bool \<times> message" where
  "download_file E url file_path expected_size w =
     (let w1 = log_event (HttpGet url) w
      in case E (http_gets w) url of
           RequestFails e \<Rightarrow> (w1, False, ErrorText e)
         | Interrupted f e \<Rightarrow> (w1\<lparr>fs := (fs w1)(file_path \<mapsto> f)\<rparr>, False, ErrorText e)
         | Completed f \<Rightarrow> (w1\<lparr>fs := (fs w1)(file_path \<mapsto> f)\<rparr>, True, DownloadSucceeded))"

subsection \<open>AutoCorrector.auto\_correct\_download\<close>

text \<open>
  Lines 235 to 248, the check of an existing file. The result is \<open>Inl\<close> for an exception,
  \<open>Inr (w, Some r)\<close> for \<^verbatim>\<open>return r\<close> and \<open>Inr (w, None)\<close> when control goes on to the
  download.
\<close>

definition check_existing ::
  "pylib \<Rightarrow> software_info \<Rightarrow> pystr \<Rightarrow> world \<Rightarrow> py_error + world \<times> (bool \<times> message) option" where
  "check_existing L info file_path w =
     (case path_exists (fs w) file_path of
        Inl e \<Rightarrow> Inl e
      | Inr False \<Rightarrow> Inr (w, None)
      | Inr True \<Rightarrow>
          (case validate_file_integrity L (fs w) file_path (sw_hash info) (sw_size info) of
             Inl e \<Rightarrow> Inl e
           | Inr (is_valid, message) \<Rightarrow>
               if is_valid then Inr (w, Some (True, FileIntact))
               else (case unlink file_path w of
                       Inl e \<Rightarrow> Inl e
                     | Inr w' \<Rightarrow> Inr (w', None))))"

text \<open>
  Lines 233 to 274, the \<^verbatim>\<open>try\<close> of one attempt with its handler: \<open>Some r\<close> is
  \<^verbatim>\<open>return r\<close>, \<open>None\<close> is falling through to the back-off. An exception is logged by the
  handler and the attempt is over.
\<close>

definition attempt_body ::
  "pylib \<Rightarrow> env \<Rightarrow> software_info \<Rightarrow> pystr \<Rightarrow> world \<Rightarrow> world \<times> (bool \<times> message) option" where
  "attempt_body L E info file_path w =
     (case check_existing L info file_path w of
        Inl e \<Rightarrow> (w, None)
      | Inr (w1, Some r) \<Rightarrow> (w1, Some r)
      | Inr (w1, None) \<Rightarrow>
          (case download_file E (case sw_url info of Some u \<Rightarrow> u | None \<Rightarrow> []) file_path
                  (case sw_size info of Some n \<Rightarrow> n | None \<Rightarrow> 0) w1 of
             (w2, success, error_msg) \<Rightarrow>
               if success then
                 (case validate_file_integrity L (fs w2) file_path (sw_hash info) (sw_size info) of
                    Inl e \<Rightarrow> (w2, None)
                  | Inr (is_valid, message) \<Rightarrow>
                      if is_valid then (w2, Some (True, CorrectionSucceeded)) else (w2, None))
               else (w2, None)))"

text \<open>
  Lines 230 to 280, the loop over \<^verbatim>\<open>range(max_retries)\<close>, given as the list of the
  attempts still to run. Line 231 reads \<^verbatim>\<open>software_info['name']\<close> outside the
  \<^verbatim>\<open>try\<close>: a record without that key raises KeyError out of the function. After an
  attempt that has not returned, lines 277 and 278 sleep, except after the last one.
\<close>

fun retry_loop ::
  "pylib \<Rightarrow> env \<Rightarrow> software_info \<Rightarrow> pystr \<Rightarrow> int \<Rightarrow> nat list \<Rightarrow> world
     \<Rightarrow> world \<times> (py_error + bool \<times> message)" where
  "retry_loop L E info file_path max_retries [] w =
     (w, Inr (False, RetriesExhausted max_retries))"
| "retry_loop L E info file_path max_retries (attempt # rest) w =
     (if sw_name info = None then (w, Inl (KeyError ''name''))
      else (case attempt_body L E info file_path w of
              (w', Some r) \<Rightarrow> (w', Inr r)
            | (w', None) \<Rightarrow>
                retry_loop L E info file_path max_retries rest
                  (if int attempt < max_retries - 1 then log_event (Sleep (2 ^ attempt)) w'
                   else w')))"

text \<open>
  The call \<^verbatim>\<open>self._generate_filename(software_info)\<close> of line 227, as every other call
  here, runs in a world and hands one back. Its body (lines 184 to 222) reads the record and
  calls the library; it reads no attribute of \<^verbatim>\<open>self\<close>, no file, no clock and changes
  nothing, so the world comes back as it went in and the result is the one of
  \<open>generate_filename\<close>.
\<close>

definition generate_filename_call ::
  "pylib \<Rightarrow> software_info \<Rightarrow> world \<Rightarrow> world \<times> (py_error + pystr)" where
  "generate_filename_call L info w = (w, generate_filename L info)"

text \<open>
  Lines 224 to 280. The file name is computed before the loop and outside any
  \<^verbatim>\<open>try\<close>, so an exception of \<^verbatim>\<open>\_generate\_filename\<close> leaves the function.
  \<^verbatim>\<open>range(max_retries)\<close> is empty for a count that is zero or negative.
\<close>

definition auto_correct_download ::
  "pylib \<Rightarrow> env \<Rightarrow> software_info \<Rightarrow> pystr \<Rightarrow> int \<Rightarrow> world
     \<Rightarrow> world \<times> (py_error + bool \<times> message)" where
  "auto_correct_download L E info download_path max_retries w =
     (case generate_filename_call L info w of
        (w0, Inl e) \<Rightarrow> (w0, Inl e)
      | (w0, Inr filename) \<Rightarrow>
          retry_loop L E info (path_join L download_path filename) max_retries
            [0..<nat max_retries] w0)"

subsection \<open>SoftwareDownloader.download\_software\<close>

text \<open>
  Lines 314 to 333. The probe file \<^verbatim>\<open>test_write.tmp\<close> is written at line 325 and
  unlinked at line 326, so a file of that name is gone afterwards and the unlink is in the
  trace.
\<close>

definition correct_path_issues :: "pylib \<Rightarrow> pystr \<Rightarrow> world \<Rightarrow> world \<times> bool \<times> message" where
  "correct_path_issues L download_path w =
     (let test_file = path_join L download_path (ustr ''test_write.tmp'');
          probed = log_event (Unlink test_file)
                     (w\<lparr>fs := (fs w)(test_file := None),
                        dirs := (dirs w)(download_path := DirWritable)\<rparr>)
      in case dirs w download_path of
           DirAbsent \<Rightarrow> (probed, True, PathWritable)
         | DirWritable \<Rightarrow> (probed, True, PathWritable)
         | DirNoPermission \<Rightarrow> (w, False, PathNotWritable)
         | DirFaulty e \<Rightarrow> (w, False, ErrorText e))"

text \<open>
  Lines 362 to 385, the loop over the requested names, with the dict \<^verbatim>\<open>results\<close> as
  an accumulator. \<^verbatim>\<open>auto_correct_download\<close> is called with its default of 3 retries and
  with no handler around it. The progress callback is the default, \<^verbatim>\<open>None\<close>.
\<close>

fun download_each ::
  "pylib \<Rightarrow> env \<Rightarrow> pystr \<Rightarrow> (pystr \<rightharpoonup> software_info) \<Rightarrow> pystr list
     \<Rightarrow> (pystr \<rightharpoonup> bool \<times> message) \<Rightarrow> world
     \<Rightarrow> world \<times> (py_error + (pystr \<rightharpoonup> bool \<times> message))" where
  "download_each L E download_path software_data [] results w = (w, Inr results)"
| "download_each L E download_path software_data (software_name # rest) results w =
     (case software_data software_name of
        None \<Rightarrow>
          download_each L E download_path software_data rest
            (results(software_name \<mapsto> (False, SoftwareInfoMissing))) w
      | Some info \<Rightarrow>
          (case auto_correct_download L E info download_path 3 w of
             (w', Inl e) \<Rightarrow> (w', Inl e)
           | (w', Inr r) \<Rightarrow>
               download_each L E download_path software_data rest
                 (results(software_name \<mapsto> r)) w'))"

text \<open>Lines 348 to 387.\<close>

definition download_software ::
  "pylib \<Rightarrow> env \<Rightarrow> pystr list \<Rightarrow> pystr \<Rightarrow> (pystr \<rightharpoonup> software_info) \<Rightarrow> world
     \<Rightarrow> world \<times> (py_error + (pystr \<rightharpoonup> bool \<times> message))" where
  "download_software L E software_list download_path software_data w =
     (case correct_path_issues L download_path w of
        (w1, path_valid, path_message) \<Rightarrow>
          if \<not> path_valid
          then (w1, Inr (map_of (map (\<lambda>software. (software, (False, path_message))) software_list)))
          else download_each L E download_path software_data software_list Map.empty w1)"

subsection \<open>The file name as the specification words it\<close>

text \<open>
  What an extension is, the code says itself: \<^verbatim>\<open>validate_executable\<close> (lines 155 and 163)
  reads it as \<^verbatim>\<open>file_path.suffix\<close>, and the comment of line 196 speaks of a file name
  that contains an extension. \<^verbatim>\<open>suffix\<close> of \<^verbatim>\<open>pathlib\<close> is the part from the last dot
  on, when that dot is neither the first nor the last character of the name; otherwise the
  name has no extension. So \<^verbatim>\<open>setup.exe\<close> has one, and \<^verbatim>\<open>file.\<close>, \<^verbatim>\<open>.hidden\<close> and
  \<^verbatim>\<open>..\<close> have none.
\<close>

definition has_extension :: "pystr \<Rightarrow> bool" where
  "has_extension name =
     (let after_last_dot = takeWhile (\<lambda>c. c \<noteq> of_char CHR ''.'') (rev name)
      in of_char CHR ''.'' \<in> set name \<and> after_last_dot \<noteq> []
         \<and> Suc (length after_last_dot) < length name)"

text \<open>\<^verbatim>\<open>name.endswith(ext)\<close>, and a name that ends with an extension of the allow-list.\<close>

definition ends_with :: "pystr \<Rightarrow> pystr \<Rightarrow> bool" where
  "ends_with ext name = (length ext \<le> length name \<and> drop (length name - length ext) name = ext)"

definition has_common_extension :: "pystr \<Rightarrow> bool" where
  "has_common_extension name = (find (\<lambda>ext. ends_with ext name) common_extensions \<noteq> None)"

text \<open>
  The specification's step 1, word for word: the explicit file name; else the basename of
  the URL's path if it has an extension; else the software name with its non-alphanumeric
  characters stripped, followed by an extension of the allow-list found in the path, or
  \<^verbatim>\<open>.exe\<close>; a URL that cannot be parsed falls back to the guess. Where the words leave a
  choice (where the guess looks, the name of a record without one) it is made as the code
  makes it.
\<close>

definition spec_generate_filename :: "pylib \<Rightarrow> software_info \<Rightarrow> pystr" where
  "spec_generate_filename L info =
     (case sw_filename info of
        Some (c # cs) \<Rightarrow> c # cs
      | _ \<Rightarrow>
        (let stripped = filter (str_isalnum L)
                          (case sw_name info of Some n \<Rightarrow> n | None \<Rightarrow> ustr ''unknown'')
         in case urlparse_path L (case sw_url info of Some u \<Rightarrow> u | None \<Rightarrow> []) of
              Inl e \<Rightarrow> stripped @ ustr ''.exe''
            | Inr url_path \<Rightarrow>
                if has_extension (os_path_basename L url_path)
                then os_path_basename L url_path
                else stripped @
                  (case find (\<lambda>ext. str_in ext (str_lower L url_path)) common_extensions of
                     Some ext \<Rightarrow> ext
                   | None \<Rightarrow> ustr ''.exe'')))"

subsection \<open>Example data\<close>

text \<open>
  A record with a declared size of three bytes and no hash, a disk holding one file at the
  record's target path, and a server that always delivers the same file.
\<close>

definition tool :: software_info where
  "tool = \<lparr>sw_filename = None, sw_name = Some (ustr ''Tool''),
            sw_url = Some (ustr ''http://h/tool.exe''), sw_hash = None, sw_size = Some 3\<rparr>"

definition stale_file :: disk_file where
  "stale_file = \<lparr>content = [104, 105], accessible = True, readable = True, removable = True\<rparr>"

definition good_file :: disk_file where
  "good_file =
     \<lparr>content = [77, 90, 144], accessible = True, readable = True, removable = True\<rparr>"

text \<open>A file in a directory that the process may not search.\<close>

definition locked_file :: disk_file where
  "locked_file =
     \<lparr>content = [77, 90, 144], accessible = False, readable = True, removable = True\<rparr>"

definition disk_with :: "disk_file \<Rightarrow> world" where
  "disk_with f =
     \<lparr>fs = [ustr ''/d/tool.exe'' \<mapsto> f], dirs = (\<lambda>d. DirWritable), trace = []\<rparr>"

definition serves :: "disk_file \<Rightarrow> env" where
  "serves f = (\<lambda>k url. Completed f)"

text \<open>
  Two records that make \<^verbatim>\<open>auto_correct_download\<close> raise: one whose URL
  \<^verbatim>\<open>urlparse\<close> rejects, and one without the key \<^verbatim>\<open>name\<close>.
\<close>

definition broken_url :: software_info where
  "broken_url = \<lparr>sw_filename = None, sw_name = Some (ustr ''Broken''),
                  sw_url = Some (ustr ''http://[::1/b.exe''), sw_hash = None, sw_size = None\<rparr>"

definition nameless :: software_info where
  "nameless = \<lparr>sw_filename = None, sw_name = None,
                sw_url = Some (ustr ''http://h/n.exe''), sw_hash = None, sw_size = None\<rparr>"

definition catalog :: "pystr \<rightharpoonup> software_info" where
  "catalog = [ustr ''Broken'' \<mapsto> broken_url, ustr ''Nameless'' \<mapsto> nameless,
              ustr ''Tool'' \<mapsto> tool]"

text \<open>A record whose URL ends in a basename with a dot and no extension.\<close>

definition dotted :: software_info where
  "dotted = \<lparr>sw_filename = None, sw_name = Some (ustr ''Tool''),
              sw_url = Some (ustr ''http://h/file.''), sw_hash = None, sw_size = None\<rparr>"

section \<open>Properties\<close>

subsection \<open>File names\<close>

lemma find_ext_find: "find_ext exts s = find (\<lambda>ext. str_in ext s) exts"
  by (induction exts) auto

lemma find_ext_mem: "find_ext exts s = Some e \<Longrightarrow> e \<in> set exts"
  by (induction exts) (auto split: if_splits)

lemma safe_name_map:
  "safe_name L n =
     map (\<lambda>c. if str_isalnum L c \<or> c \<in> set (ustr ''._- '') then c else of_char CHR ''_'') n"
  by (induction n) auto

lemma exe_common: "ustr ''.exe'' \<in> set common_extensions"
  by (simp add: common_extensions_def)

lemma has_extension_dot: "has_extension name \<Longrightarrow> of_char CHR ''.'' \<in> set name"
  by (simp add: has_extension_def Let_def)

text \<open>
  C6, as amended. Take a record that has an explicit file name, or no URL to parse (the URL
  is absent, empty or \<^verbatim>\<open>builtin\<close>), or a URL that \<^verbatim>\<open>urlparse\<close> accepts and whose
  path has a basename that either has an extension or contains no dot. Its file name is:
  the explicit \<^verbatim>\<open>filename\<close> field if it is present and not empty; else, with no URL to
  parse, the sanitised name followed by \<^verbatim>\<open>.exe\<close>; else the basename of the URL's path if
  it has an extension; else the sanitised name followed by the first extension of the
  allow-list that occurs in the lower-cased path, or by \<^verbatim>\<open>.exe\<close> when none occurs. The
  sanitised name is the software name (\<^verbatim>\<open>unknown\<close> without one) in which every character
  that is neither alphanumeric nor one of \<^verbatim>\<open>._- \<close> is replaced by an underscore: no
  character is removed.
\<close>

theorem generate_filename_cases:
  assumes "explicit = (case sw_filename info of Some f \<Rightarrow> f | None \<Rightarrow> [])"
    and "url = (case sw_url info of Some u \<Rightarrow> u | None \<Rightarrow> [])"
    and "sanitised =
           map (\<lambda>c. if str_isalnum L c \<or> c \<in> set (ustr ''._- '') then c else of_char CHR ''_'')
             (case sw_name info of Some n \<Rightarrow> n | None \<Rightarrow> ustr ''unknown'')"
    and "explicit \<noteq> [] \<or> url = [] \<or> url = ustr ''builtin'' \<or>
         (urlparse_path L url = Inr url_path \<and>
          (of_char CHR ''.'' \<in> set (os_path_basename L url_path)
             \<longrightarrow> has_extension (os_path_basename L url_path)))"
  shows "generate_filename L info =
     Inr (if explicit \<noteq> [] then explicit
          else if url = [] \<or> url = ustr ''builtin'' then sanitised @ ustr ''.exe''
          else if has_extension (os_path_basename L url_path) then os_path_basename L url_path
          else sanitised @
            (case find (\<lambda>ext. str_in ext (str_lower L url_path)) common_extensions of
               Some ext \<Rightarrow> ext
             | None \<Rightarrow> ustr ''.exe''))"
proof (cases "explicit \<noteq> []")
  case True
  with assms(1) show ?thesis
    by (auto simp: generate_filename_def split: option.splits list.splits)
next
  case False
  with assms(1) have nofile: "sw_filename info = None \<or> sw_filename info = Some []"
    by (auto split: option.splits)
  let ?n = "safe_name L (case sw_name info of Some n \<Rightarrow> n | None \<Rightarrow> ustr ''unknown'')"
  have san: "sanitised = ?n"
    by (simp add: assms(3) safe_name_map)
  have derived: "generate_filename L info =
      (if url \<noteq> [] \<and> url \<noteq> ustr ''builtin'' then
         (case urlparse_path L url of
            Inl e \<Rightarrow> Inl e
          | Inr p \<Rightarrow>
              (let basename = os_path_basename L p
               in if basename \<noteq> [] \<and> of_char CHR ''.'' \<in> set basename then Inr basename
                  else (case find_ext common_extensions (str_lower L p) of
                          Some found_ext \<Rightarrow> Inr (?n @ found_ext)
                        | None \<Rightarrow> Inr (?n @ ustr ''.exe''))))
       else Inr (?n @ ustr ''.exe''))"
    using nofile by (auto simp: generate_filename_def assms(2) Let_def)
  show ?thesis
  proof (cases "url = [] \<or> url = ustr ''builtin''")
    case True
    with False show ?thesis by (auto simp: derived san)
  next
    case noturl: False
    with False assms(4) have p: "urlparse_path L url = Inr url_path"
      and d: "of_char CHR ''.'' \<in> set (os_path_basename L url_path)
                \<longrightarrow> has_extension (os_path_basename L url_path)"
      by auto
    show ?thesis
    proof (cases "has_extension (os_path_basename L url_path)")
      case True
      then have "of_char CHR ''.'' \<in> set (os_path_basename L url_path)"
        by (rule has_extension_dot)
      with True False noturl p show ?thesis
        by (auto simp: derived Let_def)
    next
      case noext: False
      with d have "of_char CHR ''.'' \<notin> set (os_path_basename L url_path)" by blast
      with noext False noturl p show ?thesis
        by (cases "find_ext common_extensions (str_lower L url_path)")
           (auto simp: derived Let_def find_ext_find san)
    qed
  qed
qed

theorem generate_filename_cases_witness:
  "generate_filename stdlib
     \<lparr>sw_filename = None, sw_name = Some (ustr ''My+Tool''),
      sw_url = Some (ustr ''http://h/files.zip/latest''), sw_hash = None, sw_size = None\<rparr>
     = Inr (ustr ''My_Tool.zip'')"
proof -
  let ?info = "\<lparr>sw_filename = None, sw_name = Some (ustr ''My+Tool''),
      sw_url = Some (ustr ''http://h/files.zip/latest''), sw_hash = None, sw_size = None\<rparr>"
  have path: "urlparse_path stdlib (ustr ''http://h/files.zip/latest'') = Inr (ustr ''/files.zip/latest'')"
    by code_simp
  have base: "os_path_basename stdlib (ustr ''/files.zip/latest'') = ustr ''latest''"
    by code_simp
  have nodot: "of_char CHR ''.'' \<notin> set (ustr ''latest'')"
    by (simp add: ustr_def)
  have noext: "\<not> has_extension (ustr ''latest'')"
    using nodot has_extension_dot by blast
  have san: "map (\<lambda>c. if str_isalnum stdlib c \<or> c \<in> set (ustr ''._- '') then c else of_char CHR ''_'')
               (ustr ''My+Tool'') = ustr ''My_Tool''"
    by code_simp
  have guess: "find (\<lambda>ext. str_in ext (str_lower stdlib (ustr ''/files.zip/latest''))) common_extensions
                 = Some (ustr ''.zip'')"
    by code_simp
  have url: "ustr ''http://h/files.zip/latest'' \<noteq> [] \<and> ustr ''http://h/files.zip/latest'' \<noteq> ustr ''builtin''"
    by (simp add: ustr_def)
  show ?thesis
    using generate_filename_cases [of "[]" ?info "ustr ''http://h/files.zip/latest''"
        "ustr ''My_Tool''" stdlib "ustr ''/files.zip/latest''"]
      path base nodot noext san guess url
    by (simp add: ustr_def)
qed

text \<open>
  C6 as the specification states it fails: for the name \<^verbatim>\<open>a+b\<close> and the URL
  \<^verbatim>\<open>http://h/dl\<close> the code gives \<^verbatim>\<open>a_b.exe\<close>, where stripping gives \<^verbatim>\<open>ab.exe\<close>.
\<close>

theorem stripped_name_counterexample:
  "generate_filename stdlib
     \<lparr>sw_filename = None, sw_name = Some (ustr ''a+b''), sw_url = Some (ustr ''http://h/dl''),
      sw_hash = None, sw_size = None\<rparr>
   \<noteq> Inr (spec_generate_filename stdlib
     \<lparr>sw_filename = None, sw_name = Some (ustr ''a+b''), sw_url = Some (ustr ''http://h/dl''),
      sw_hash = None, sw_size = None\<rparr>)"
  by code_simp

lemma stripped_name_values:
  "generate_filename stdlib
     \<lparr>sw_filename = None, sw_name = Some (ustr ''a+b''), sw_url = Some (ustr ''http://h/dl''),
      sw_hash = None, sw_size = None\<rparr> = Inr (ustr ''a_b.exe'')"
  "spec_generate_filename stdlib
     \<lparr>sw_filename = None, sw_name = Some (ustr ''a+b''), sw_url = Some (ustr ''http://h/dl''),
      sw_hash = None, sw_size = None\<rparr> = ustr ''ab.exe''"
  by code_simp+

text \<open>
  A record without an explicit file name (the key absent, or empty) whose URL is absent,
  empty or \<^verbatim>\<open>builtin\<close>, or whose URL has a path with a basename that contains no dot, gets
  a file name that ends with an extension of the allow-list.
\<close>

lemma filename_has_extension:
  assumes "sw_filename info = None \<or> sw_filename info = Some []"
    and "url = (case sw_url info of Some u \<Rightarrow> u | None \<Rightarrow> [])"
    and "url = [] \<or> url = ustr ''builtin'' \<or>
         (urlparse_path L url = Inr p \<and>
          (os_path_basename L p = [] \<or> of_char CHR ''.'' \<notin> set (os_path_basename L p)))"
  shows "\<exists>stem ext. generate_filename L info = Inr (stem @ ext) \<and> ext \<in> set common_extensions"
proof -
  let ?n = "safe_name L (case sw_name info of Some n \<Rightarrow> n | None \<Rightarrow> ustr ''unknown'')"
  let ?guess = "(case find_ext common_extensions (str_lower L p) of
                   Some found_ext \<Rightarrow> Inr (?n @ found_ext)
                 | None \<Rightarrow> Inr (?n @ ustr ''.exe'')) :: py_error + pystr"
  have derived: "generate_filename L info =
      (if url \<noteq> [] \<and> url \<noteq> ustr ''builtin'' then
         (case urlparse_path L url of
            Inl e \<Rightarrow> Inl e
          | Inr url_path \<Rightarrow>
              (let basename = os_path_basename L url_path
               in if basename \<noteq> [] \<and> of_char CHR ''.'' \<in> set basename then Inr basename
                  else (case find_ext common_extensions (str_lower L url_path) of
                          Some found_ext \<Rightarrow> Inr (?n @ found_ext)
                        | None \<Rightarrow> Inr (?n @ ustr ''.exe''))))
       else Inr (?n @ ustr ''.exe''))"
    using assms(1) by (auto simp: generate_filename_def assms(2) Let_def)
  show ?thesis
  proof (cases "url = [] \<or> url = ustr ''builtin''")
    case True
    then have "generate_filename L info = Inr (?n @ ustr ''.exe'')"
      by (auto simp: derived)
    with exe_common show ?thesis by blast
  next
    case False
    with assms(3) have p: "urlparse_path L url = Inr p"
      and b: "os_path_basename L p = [] \<or> of_char CHR ''.'' \<notin> set (os_path_basename L p)"
      by auto
    have g: "generate_filename L info = ?guess"
      using False p b by (auto simp: derived Let_def)
    show ?thesis
    proof (cases "find_ext common_extensions (str_lower L p)")
      case None
      with g exe_common show ?thesis by auto
    next
      case (Some e)
      with g find_ext_mem [OF Some] show ?thesis by auto
    qed
  qed
qed

text \<open>
  C7 fails on the code. Line 197 takes the basename of the URL's path as the file name as
  soon as it contains a dot. For the URL \<^verbatim>\<open>http://h/file.\<close> the basename is \<^verbatim>\<open>file.\<close>,
  which has no extension, and it is returned as the file name: a name that ends with no
  extension of the allow-list.
\<close>

theorem filename_without_extension:
  "sw_filename dotted = None
   \<and> urlparse_path stdlib (ustr ''http://h/file.'') = Inr (ustr ''/file.'')
   \<and> os_path_basename stdlib (ustr ''/file.'') = ustr ''file.''
   \<and> \<not> has_extension (ustr ''file.'')
   \<and> generate_filename stdlib dotted = Inr (ustr ''file.'')
   \<and> \<not> has_common_extension (ustr ''file.'')"
proof -
  have "sw_filename dotted = None" by (simp add: dotted_def)
  moreover have "urlparse_path stdlib (ustr ''http://h/file.'') = Inr (ustr ''/file.'')"
    by code_simp
  moreover have "os_path_basename stdlib (ustr ''/file.'') = ustr ''file.''"
    by code_simp
  moreover have "\<not> has_extension (ustr ''file.'')"
    by code_simp
  moreover have "generate_filename stdlib dotted = Inr (ustr ''file.'')"
    by code_simp
  moreover have "\<not> has_common_extension (ustr ''file.'')"
    by code_simp
  ultimately show ?thesis by blast
qed

text \<open>
  C10. An explicit file name that is not empty is returned as it is: no character is
  replaced and no extension is looked for or added.
\<close>

theorem explicit_filename_verbatim:
  "sw_filename info = Some f \<Longrightarrow> f \<noteq> [] \<Longrightarrow> generate_filename L info = Inr f"
  by (cases f) (simp_all add: generate_filename_def)

theorem explicit_filename_verbatim_witness:
  "generate_filename stdlib
     \<lparr>sw_filename = Some (ustr ''my file?''), sw_name = Some (ustr ''Tool''),
      sw_url = Some (ustr ''http://h/tool.zip''), sw_hash = None, sw_size = None\<rparr>
   = Inr (ustr ''my file?'')"
  using explicit_filename_verbatim [of
      "\<lparr>sw_filename = Some (ustr ''my file?''), sw_name = Some (ustr ''Tool''),
        sw_url = Some (ustr ''http://h/tool.zip''), sw_hash = None, sw_size = None\<rparr>"
      "ustr ''my file?''" stdlib]
  by (simp add: ustr_def)

subsection \<open>Validation\<close>

text \<open>
  The result of \<^verbatim>\<open>validate_file_integrity\<close> is decided in this order:
  not-ok for a path that does not exist; an exception for a file that \<^verbatim>\<open>stat\<close> may not
  examine; not-ok for an expected size that differs from the file's; not-ok for an expected
  hash, not empty, that differs from the digest when both are lower-cased (the digest of a
  file that cannot be read is the empty string); then the read of the first bytes, where a
  failure is caught and reported as not-ok; ok otherwise.
\<close>

lemma validate_file_integrity_cases:
  "validate_file_integrity L files file_path expected_hash expected_size =
     (case files file_path of
        None \<Rightarrow> Inr (False, FileNotFound)
      | Some f \<Rightarrow>
          if \<not> accessible f then Inl (OSError ''Permission denied'')
          else
          (let actual_size = int (length (content f));
               actual_hash = (if readable f then sha256_hexdigest L (content f) else []);
               wanted_hash = (case expected_hash of Some h \<Rightarrow> h | None \<Rightarrow> [])
           in if expected_size \<noteq> None \<and> expected_size \<noteq> Some actual_size
              then Inr (False, SizeMismatch (the expected_size) actual_size)
              else if wanted_hash \<noteq> [] \<and> str_lower L actual_hash \<noteq> str_lower L wanted_hash
              then Inr (False, HashMismatch wanted_hash actual_hash)
              else if readable f then Inr (True, FileIntact)
              else Inr (False, ValidationFailed (OSError ''Permission denied''))))"
  by (auto simp: validate_file_integrity_def validate_checks_def calculate_file_hash_def
        path_exists_def Let_def split: option.splits list.splits)

text \<open>
  C5 fails on the code. The existence check of line 122 stands before the \<^verbatim>\<open>try\<close>, so
  for a file in a directory that the process may not search, the PermissionError of
  \<^verbatim>\<open>Path.exists()\<close> leaves \<^verbatim>\<open>validate_file_integrity\<close>: no pair is returned.
\<close>

theorem validate_raises_on_locked_path:
  "validate_file_integrity stdlib [ustr ''/locked/a.exe'' \<mapsto> locked_file] (ustr ''/locked/a.exe'')
     None None = Inl (OSError ''Permission denied'')"
  by (simp add: validate_file_integrity_def path_exists_def locked_file_def)

text \<open>
  C1, as amended. For an existing file that \<^verbatim>\<open>stat\<close> may examine and an expected hash that
  is not empty and differs from the file's digest when both are lower-cased, the result is
  not-ok whatever the expected size is. The message names the hash mismatch when no size is
  expected or the size matches, and names the size mismatch when the size differs, since the
  size is checked first.
\<close>

theorem hash_mismatch_rejected:
  assumes "files file_path = Some f"
    and "accessible f"
    and "expected_hash \<noteq> []"
    and "str_lower L (calculate_file_hash L files file_path) \<noteq> str_lower L expected_hash"
  shows "validate_file_integrity L files file_path (Some expected_hash) expected_size =
           Inr (False,
            case expected_size of
              None \<Rightarrow> HashMismatch expected_hash (calculate_file_hash L files file_path)
            | Some es \<Rightarrow>
                if int (length (content f)) = es
                then HashMismatch expected_hash (calculate_file_hash L files file_path)
                else SizeMismatch es (int (length (content f))))"
  using assms
  by (auto simp: validate_file_integrity_def validate_checks_def path_exists_def Let_def
           split: option.splits list.splits)

lemma stale_digest:
  "calculate_file_hash stdlib [ustr ''/d/a.exe'' \<mapsto> stale_file] (ustr ''/d/a.exe'')
     = replicate 64 (of_char CHR ''0'')"
  by (simp add: calculate_file_hash_def stale_file_def stdlib_def)

lemma stale_digest_differs:
  "str_lower stdlib (calculate_file_hash stdlib [ustr ''/d/a.exe'' \<mapsto> stale_file] (ustr ''/d/a.exe''))
     \<noteq> str_lower stdlib (ustr ''abc123def456'')"
proof -
  have "length (str_lower stdlib (replicate 64 (of_char CHR ''0'')))
          \<noteq> length (str_lower stdlib (ustr ''abc123def456''))"
    by (simp add: stdlib_def ascii_lower_def ustr_def)
  then show ?thesis
    unfolding stale_digest by metis
qed

theorem hash_mismatch_rejected_witness:
  "validate_file_integrity stdlib [ustr ''/d/a.exe'' \<mapsto> stale_file] (ustr ''/d/a.exe'')
     (Some (ustr ''abc123def456'')) (Some 2)
   = Inr (False, HashMismatch (ustr ''abc123def456'') (replicate 64 (of_char CHR ''0'')))"
proof -
  have f: "[ustr ''/d/a.exe'' \<mapsto> stale_file] (ustr ''/d/a.exe'') = Some stale_file"
    by simp
  have a: "accessible stale_file"
    by (simp add: stale_file_def)
  have ne: "ustr ''abc123def456'' \<noteq> []"
    by (simp add: ustr_def)
  have sz: "int (length (content stale_file)) = 2"
    by (simp add: stale_file_def)
  show ?thesis
    using hash_mismatch_rejected [OF f a ne stale_digest_differs, of "Some 2"] sz
    by (simp add: stale_digest)
qed

text \<open>
  C1 as the specification states it fails when the size differs too: a file of two bytes,
  checked against the hash \<^verbatim>\<open>abc123def456\<close> and the size 3, has a digest that differs
  from the hash, and the message names the size, not the hash.
\<close>

theorem hash_mismatch_message_counterexample:
  "str_lower stdlib (calculate_file_hash stdlib [ustr ''/d/a.exe'' \<mapsto> stale_file] (ustr ''/d/a.exe''))
     \<noteq> str_lower stdlib (ustr ''abc123def456'') \<and>
   validate_file_integrity stdlib [ustr ''/d/a.exe'' \<mapsto> stale_file] (ustr ''/d/a.exe'')
     (Some (ustr ''abc123def456'')) (Some 3)
   = Inr (False, SizeMismatch 3 2)"
proof -
  have v: "validate_file_integrity stdlib [ustr ''/d/a.exe'' \<mapsto> stale_file] (ustr ''/d/a.exe'')
     (Some (ustr ''abc123def456'')) (Some 3) = Inr (False, SizeMismatch 3 2)"
    by (simp add: validate_file_integrity_def validate_checks_def path_exists_def stale_file_def
          Let_def)
  show ?thesis using stale_digest_differs v by simp
qed

subsection \<open>The trace of one attempt and of the loop\<close>

lemma trace_log_event [simp]: "trace (log_event e w) = trace w @ [e]"
  by (simp add: log_event_def)

lemma fs_log_event [simp]: "fs (log_event e w) = fs w"
  by (simp add: log_event_def)

lemma new_events_append: "trace w' = trace w @ evs \<Longrightarrow> new_events w w' = evs"
  by (simp add: new_events_def)

lemma validate_depends_on_file:
  "files file_path = files' file_path \<Longrightarrow>
     validate_file_integrity L files file_path h s = validate_file_integrity L files' file_path h s"
proof -
  assume eq: "files file_path = files' file_path"
  have "calculate_file_hash L files file_path = calculate_file_hash L files' file_path"
    by (simp add: calculate_file_hash_def eq)
  then have "validate_checks L files file_path h s = validate_checks L files' file_path h s"
    by (simp add: validate_checks_def eq split: option.splits)
  moreover have "path_exists files file_path = path_exists files' file_path"
    by (simp add: path_exists_def eq)
  ultimately show ?thesis
    by (simp only: validate_file_integrity_def)
qed

lemma validate_returns_exists:
  "files file_path = Some f \<Longrightarrow> validate_file_integrity L files file_path h s = Inr r \<Longrightarrow>
     accessible f \<and> path_exists files file_path = Inr True"
  by (auto simp: validate_file_integrity_def path_exists_def split: if_splits)

lemma validate_accepts_exists:
  "validate_file_integrity L files file_path h s = Inr (True, m) \<Longrightarrow>
     path_exists files file_path = Inr True"
  by (auto simp: validate_file_integrity_def split: sum.splits bool.splits)

lemma trace_download_file:
  "trace (fst (download_file E url file_path n w)) = trace w @ [HttpGet url]"
  by (simp add: download_file_def Let_def split: response.splits)

lemma check_existing_valid:
  "validate_file_integrity L (fs w) file_path (sw_hash info) (sw_size info) = Inr (True, m) \<Longrightarrow>
   check_existing L info file_path w = Inr (w, Some (True, FileIntact))"
  by (simp add: check_existing_def validate_accepts_exists)

lemma check_existing_stuck:
  "fs w file_path = Some f \<Longrightarrow>
   validate_file_integrity L (fs w) file_path (sw_hash info) (sw_size info) = Inr (False, m) \<Longrightarrow>
   \<not> removable f \<Longrightarrow>
   check_existing L info file_path w = Inl (OSError ''Permission denied'')"
  using validate_returns_exists [of "fs w" file_path f L "sw_hash info" "sw_size info" "(False, m)"]
  by (simp add: check_existing_def unlink_def)

lemma check_existing_removed:
  "fs w file_path = Some f \<Longrightarrow>
   validate_file_integrity L (fs w) file_path (sw_hash info) (sw_size info) = Inr (False, m) \<Longrightarrow>
   removable f \<Longrightarrow>
   check_existing L info file_path w =
     Inr (log_event (Unlink file_path) (w\<lparr>fs := (fs w)(file_path := None)\<rparr>), None)"
  using validate_returns_exists [of "fs w" file_path f L "sw_hash info" "sw_size info" "(False, m)"]
  by (simp add: check_existing_def unlink_def)

lemma check_existing_trace:
  "check_existing L info file_path w = Inr (w1, r) \<Longrightarrow>
     trace w1 = trace w \<or> trace w1 = trace w @ [Unlink file_path]"
  by (auto simp: check_existing_def unlink_def
           split: if_splits option.splits sum.splits bool.splits prod.splits)

lemma attempt_body_trace:
  "\<exists>evs. trace (fst (attempt_body L E info file_path w)) = trace w @ evs
         \<and> length (filter is_get evs) \<le> 1"
proof (cases "check_existing L info file_path w")
  case (Inl e)
  then show ?thesis by (simp add: attempt_body_def)
next
  case (Inr p)
  obtain w1 r where p: "p = (w1, r)" by (cases p)
  from Inr p have t: "trace w1 = trace w \<or> trace w1 = trace w @ [Unlink file_path]"
    using check_existing_trace by blast
  show ?thesis
  proof (cases r)
    case (Some res)
    with Inr p t show ?thesis by (auto simp: attempt_body_def)
  next
    case None
    let ?d = "download_file E (case sw_url info of Some u \<Rightarrow> u | None \<Rightarrow> []) file_path
                (case sw_size info of Some n \<Rightarrow> n | None \<Rightarrow> 0) w1"
    have fstd: "fst (attempt_body L E info file_path w) = fst ?d"
      using Inr p None by (simp add: attempt_body_def split: prod.splits sum.splits)
    have "trace (fst ?d) = trace w1 @ [HttpGet (case sw_url info of Some u \<Rightarrow> u | None \<Rightarrow> [])]"
      by (rule trace_download_file)
    with t fstd show ?thesis by auto
  qed
qed


lemma retry_loop_trace:
  "\<exists>evs. trace (fst (retry_loop L E info file_path m xs w)) = trace w @ evs
         \<and> length (filter is_get evs) \<le> length xs"
proof (induction xs arbitrary: w)
  case Nil
  then show ?case by simp
next
  case (Cons attempt rest)
  show ?case
  proof (cases "sw_name info = None")
    case True
    then show ?thesis by simp
  next
    case False
    then obtain n where n: "sw_name info = Some n" by auto
    obtain w' r where ab: "attempt_body L E info file_path w = (w', r)"
      by (cases "attempt_body L E info file_path w")
    from attempt_body_trace [of L E info file_path w] ab
    obtain evs where evs: "trace w' = trace w @ evs" "length (filter is_get evs) \<le> 1"
      by auto
    show ?thesis
    proof (cases r)
      case (Some res)
      with n ab evs show ?thesis by auto
    next
      case None
      let ?w = "if int attempt < m - 1 then log_event (Sleep (2 ^ attempt)) w' else w'"
      from Cons.IH [of ?w]
      obtain evs' where evs':
        "trace (fst (retry_loop L E info file_path m rest ?w)) = trace ?w @ evs'"
        "length (filter is_get evs') \<le> length rest" by blast
      have "\<exists>s. trace ?w = trace w @ evs @ s \<and> filter is_get s = []"
        using evs by auto
      then obtain s where s: "trace ?w = trace w @ evs @ s" "filter is_get s = []" by blast
      have "trace (fst (retry_loop L E info file_path m (attempt # rest) w))
              = trace w @ (evs @ s @ evs')"
        using n ab None evs' s by simp
      moreover have "length (filter is_get (evs @ s @ evs')) \<le> length (attempt # rest)"
        using evs evs' s by simp
      ultimately show ?thesis by blast
    qed
  qed
qed

lemma auto_correct_download_gets:
  "length (filter is_get
     (new_events w (fst (auto_correct_download L E info download_path max_retries w))))
     \<le> nat max_retries"
proof (cases "generate_filename L info")
  case (Inl e)
  then show ?thesis by (simp add: auto_correct_download_def generate_filename_call_def new_events_def)
next
  case (Inr filename)
  from retry_loop_trace [of L E info "path_join L download_path filename" max_retries
      "[0..<nat max_retries]" w]
  obtain evs where
    "trace (fst (retry_loop L E info (path_join L download_path filename) max_retries
                   [0..<nat max_retries] w)) = trace w @ evs"
    "length (filter is_get evs) \<le> length [0..<nat max_retries]" by blast
  with Inr show ?thesis
    by (simp add: auto_correct_download_def generate_filename_call_def new_events_append)
qed

text \<open>
  C2. The GETs that one call of \<^verbatim>\<open>auto_correct_download\<close> adds to the trace number at
  most \<^verbatim>\<open>max_retries\<close>, for every record, directory, disk and behaviour of the network,
  also when the call ends in an exception. For a count that is zero or negative the call
  issues none.
\<close>

theorem http_attempts_bounded:
  "int (length (filter is_get
     (new_events w (fst (auto_correct_download L E info download_path max_retries w)))))
     \<le> max 0 max_retries"
  using auto_correct_download_gets [of w L E info download_path max_retries] by linarith

subsection \<open>An existing file\<close>

lemma attempt_body_valid:
  "validate_file_integrity L (fs w) file_path (sw_hash info) (sw_size info) = Inr (True, m) \<Longrightarrow>
   attempt_body L E info file_path w = (w, Some (True, FileIntact))"
  by (simp add: attempt_body_def check_existing_valid)

lemma attempt_body_stuck:
  "fs w file_path = Some f \<Longrightarrow>
   validate_file_integrity L (fs w) file_path (sw_hash info) (sw_size info) = Inr (False, m) \<Longrightarrow>
   \<not> removable f \<Longrightarrow>
   attempt_body L E info file_path w = (w, None)"
  by (simp add: attempt_body_def check_existing_stuck)

lemma attempt_body_removed:
  assumes "fs w file_path = Some f"
    and "validate_file_integrity L (fs w) file_path (sw_hash info) (sw_size info) = Inr (False, m)"
    and "removable f"
  shows "trace (fst (attempt_body L E info file_path w)) =
           trace w @ [Unlink file_path, HttpGet (case sw_url info of Some u \<Rightarrow> u | None \<Rightarrow> [])]"
proof -
  let ?w1 = "log_event (Unlink file_path) (w\<lparr>fs := (fs w)(file_path := None)\<rparr>)"
  let ?d = "download_file E (case sw_url info of Some u \<Rightarrow> u | None \<Rightarrow> []) file_path
              (case sw_size info of Some n \<Rightarrow> n | None \<Rightarrow> 0) ?w1"
  have "check_existing L info file_path w = Inr (?w1, None)"
    using assms by (rule check_existing_removed)
  then have "fst (attempt_body L E info file_path w) = fst ?d"
    by (simp add: attempt_body_def split: prod.splits sum.splits)
  then show ?thesis
    by (simp add: trace_download_file)
qed

lemma attempt_body_returns:
  "attempt_body L E info file_path w = (w', Some r) \<Longrightarrow>
     fst r \<and> (\<exists>m. validate_file_integrity L (fs w') file_path (sw_hash info) (sw_size info)
                    = Inr (True, m))"
  by (auto simp: attempt_body_def check_existing_def
           split: sum.splits prod.splits option.splits if_splits bool.splits)

lemma retry_loop_success_valid:
  "snd (retry_loop L E info file_path m xs w) = Inr (True, msg) \<Longrightarrow>
     \<exists>reason. validate_file_integrity L (fs (fst (retry_loop L E info file_path m xs w))) file_path
            (sw_hash info) (sw_size info) = Inr (True, reason)"
proof (induction xs arbitrary: w)
  case Nil
  then show ?case by simp
next
  case (Cons attempt rest)
  show ?case
  proof (cases "sw_name info")
    case None
    with Cons.prems show ?thesis by simp
  next
    case (Some n)
    obtain w' r where ab: "attempt_body L E info file_path w = (w', r)"
      by (cases "attempt_body L E info file_path w")
    show ?thesis
    proof (cases r)
      case None
      with Some ab Cons.prems Cons.IH show ?thesis by simp
    next
      case (Some res)
      with ab attempt_body_returns [of L E info file_path w w' res] \<open>sw_name info = Some n\<close>
      show ?thesis by simp
    qed
  qed
qed

lemma retry_loop_stuck:
  "fs w file_path = Some f \<Longrightarrow>
   validate_file_integrity L (fs w) file_path (sw_hash info) (sw_size info) = Inr (False, reason) \<Longrightarrow>
   \<not> removable f \<Longrightarrow>
   snd (retry_loop L E info file_path m xs w) \<noteq> Inr (True, msg)"
proof (induction xs arbitrary: w)
  case Nil
  then show ?case by simp
next
  case (Cons attempt rest)
  have ab: "attempt_body L E info file_path w = (w, None)"
    using Cons.prems by (rule attempt_body_stuck)
  show ?case
  proof (cases "sw_name info")
    case None
    then show ?thesis by simp
  next
    case (Some n)
    let ?w = "if int attempt < m - 1 then log_event (Sleep (2 ^ attempt)) w else w"
    have "fs ?w = fs w" by simp
    with Cons.prems Cons.IH [of ?w]
    have "snd (retry_loop L E info file_path m rest ?w) \<noteq> Inr (True, msg)" by simp
    with Some ab show ?thesis by simp
  qed
qed

lemma retry_loop_first_events:
  assumes "fs w file_path = Some f"
    and "validate_file_integrity L (fs w) file_path (sw_hash info) (sw_size info)
           = Inr (False, reason)"
    and "removable f"
    and "sw_name info = Some n"
  shows "take 2 (new_events w (fst (retry_loop L E info file_path m (attempt # rest) w))) =
           [Unlink file_path, HttpGet (case sw_url info of Some u \<Rightarrow> u | None \<Rightarrow> [])]"
proof -
  let ?u = "case sw_url info of Some u \<Rightarrow> u | None \<Rightarrow> []"
  obtain w' r where ab: "attempt_body L E info file_path w = (w', r)"
    by (cases "attempt_body L E info file_path w")
  have t: "trace w' = trace w @ [Unlink file_path, HttpGet ?u]"
    using attempt_body_removed [OF assms(1-3), of E] ab by simp
  show ?thesis
  proof (cases r)
    case (Some res)
    with ab assms(4) t show ?thesis by (simp add: new_events_def)
  next
    case None
    let ?w = "if int attempt < m - 1 then log_event (Sleep (2 ^ attempt)) w' else w'"
    obtain evs where evs: "trace (fst (retry_loop L E info file_path m rest ?w)) = trace ?w @ evs"
      using retry_loop_trace [of L E info file_path m rest ?w] by blast
    have "\<exists>s. trace ?w = trace w' @ s" by simp
    then obtain s where "trace ?w = trace w' @ s" by blast
    with evs t None ab assms(4) show ?thesis by (simp add: new_events_def)
  qed
qed

subsection \<open>Where the file on disk comes from\<close>

lemma http_gets_log_event [simp]:
  "http_gets (log_event e w) = (if is_get e then Suc (http_gets w) else http_gets w)"
  by (simp add: http_gets_def)

lemma http_gets_fs_update [simp]: "http_gets (w\<lparr>fs := x\<rparr>) = http_gets w"
  by (simp add: http_gets_def)

lemma file_origin_refl: "file_origin E url file_path w w"
  by (simp add: file_origin_def)

lemma file_origin_sleep: "file_origin E url file_path w (log_event (Sleep n) w)"
  by (simp add: file_origin_def)

lemma file_origin_trans:
  assumes "file_origin E url file_path w w1" and "file_origin E url file_path w1 w2"
  shows "file_origin E url file_path w w2"
proof -
  from assms have le: "http_gets w \<le> http_gets w1" "http_gets w1 \<le> http_gets w2"
    by (simp_all add: file_origin_def)
  from assms(2) consider
      (same) "fs w2 file_path = fs w1 file_path"
    | (none) "fs w2 file_path = None"
    | (new) k f where "http_gets w1 \<le> k" "k < http_gets w2" "fs w2 file_path = Some f"
        "delivered_by E url k f"
    by (auto simp: file_origin_def)
  then show ?thesis
  proof cases
    case same
    from assms(1) consider
        (same1) "fs w1 file_path = fs w file_path"
      | (none1) "fs w1 file_path = None"
      | (new1) k f where "http_gets w \<le> k" "k < http_gets w1" "fs w1 file_path = Some f"
          "delivered_by E url k f"
      by (auto simp: file_origin_def)
    then show ?thesis
    proof cases
      case same1
      with same le show ?thesis by (simp add: file_origin_def)
    next
      case none1
      with same le show ?thesis by (simp add: file_origin_def)
    next
      case new1
      then have "http_gets w \<le> k \<and> k < http_gets w2 \<and> fs w2 file_path = Some f
                 \<and> delivered_by E url k f"
        using same le by simp
      with le show ?thesis unfolding file_origin_def by (meson le_trans)
    qed
  next
    case none
    with le show ?thesis by (simp add: file_origin_def)
  next
    case new
    then have "http_gets w \<le> k \<and> k < http_gets w2 \<and> fs w2 file_path = Some f
               \<and> delivered_by E url k f"
      using le by simp
    with le show ?thesis unfolding file_origin_def by (meson le_trans)
  qed
qed

lemma download_file_origin:
  "file_origin E url file_path w (fst (download_file E url file_path n w))"
proof (cases "E (http_gets w) url")
  case (RequestFails e)
  then show ?thesis by (simp add: download_file_def file_origin_def)
next
  case (Interrupted g e)
  then have "delivered_by E url (http_gets w) g" by (simp add: delivered_by_def)
  with Interrupted show ?thesis
    by (auto simp: download_file_def file_origin_def)
next
  case (Completed g)
  then have "delivered_by E url (http_gets w) g" by (simp add: delivered_by_def)
  with Completed show ?thesis
    by (auto simp: download_file_def file_origin_def)
qed

lemma check_existing_origin:
  "check_existing L info file_path w = Inr (w1, r) \<Longrightarrow> file_origin E url file_path w w1"
  by (auto simp: check_existing_def unlink_def file_origin_def
           split: if_splits option.splits sum.splits bool.splits prod.splits)

lemma attempt_body_origin:
  assumes "url = (case sw_url info of Some u \<Rightarrow> u | None \<Rightarrow> [])"
  shows "file_origin E url file_path w (fst (attempt_body L E info file_path w))"
proof (cases "check_existing L info file_path w")
  case (Inl e)
  then show ?thesis by (simp add: attempt_body_def file_origin_refl)
next
  case (Inr p)
  obtain w1 r where p: "p = (w1, r)" by (cases p)
  from Inr p have o1: "file_origin E url file_path w w1"
    using check_existing_origin by blast
  show ?thesis
  proof (cases r)
    case (Some res)
    with Inr p o1 show ?thesis by (simp add: attempt_body_def)
  next
    case None
    let ?d = "download_file E url file_path (case sw_size info of Some n \<Rightarrow> n | None \<Rightarrow> 0) w1"
    have "fst (attempt_body L E info file_path w) = fst ?d"
      using Inr p None assms by (simp add: attempt_body_def split: prod.splits sum.splits)
    with o1 download_file_origin [of E url file_path w1] show ?thesis
      using file_origin_trans by metis
  qed
qed

lemma retry_loop_origin:
  assumes "url = (case sw_url info of Some u \<Rightarrow> u | None \<Rightarrow> [])"
  shows "file_origin E url file_path w (fst (retry_loop L E info file_path m xs w))"
proof (induction xs arbitrary: w)
  case Nil
  then show ?case by (simp add: file_origin_refl)
next
  case (Cons attempt rest)
  show ?case
  proof (cases "sw_name info")
    case None
    then show ?thesis by (simp add: file_origin_refl)
  next
    case (Some n)
    obtain w' r where ab: "attempt_body L E info file_path w = (w', r)"
      by (cases "attempt_body L E info file_path w")
    have o1: "file_origin E url file_path w w'"
      using attempt_body_origin [OF assms, of E file_path w L] ab by simp
    show ?thesis
    proof (cases r)
      case (Some res)
      with \<open>sw_name info = Some n\<close> ab o1 show ?thesis by simp
    next
      case None
      let ?w = "if int attempt < m - 1 then log_event (Sleep (2 ^ attempt)) w' else w'"
      have "file_origin E url file_path w' ?w"
        by (simp add: file_origin_refl file_origin_sleep)
      with o1 have "file_origin E url file_path w ?w"
        by (rule file_origin_trans)
      from this Cons.IH [of ?w]
      have "file_origin E url file_path w (fst (retry_loop L E info file_path m rest ?w))"
        by (rule file_origin_trans)
      with \<open>sw_name info = Some n\<close> ab None show ?thesis by simp
    qed
  qed
qed

lemma retry_loop_fresh:
  assumes "fs w file_path = Some f"
    and "validate_file_integrity L (fs w) file_path (sw_hash info) (sw_size info)
           = Inr (False, reason)"
    and "removable f"
    and "sw_name info = Some n"
    and "url = (case sw_url info of Some u \<Rightarrow> u | None \<Rightarrow> [])"
    and "w' = fst (retry_loop L E info file_path m (attempt # rest) w)"
  shows "fs w' file_path = None \<or>
         (\<exists>k g. http_gets w \<le> k \<and> k < http_gets w' \<and> fs w' file_path = Some g
                \<and> delivered_by E url k g)"
proof -
  let ?deleted = "log_event (Unlink file_path) (w\<lparr>fs := (fs w)(file_path := None)\<rparr>)"
  let ?d = "download_file E url file_path (case sw_size info of Some n \<Rightarrow> n | None \<Rightarrow> 0) ?deleted"
  have ce: "check_existing L info file_path w = Inr (?deleted, None)"
    using assms(1-3) by (rule check_existing_removed)
  then have ab: "fst (attempt_body L E info file_path w) = fst ?d"
    using assms(5) by (simp add: attempt_body_def split: prod.splits sum.splits)
  have o1: "file_origin E url file_path ?deleted (fst (attempt_body L E info file_path w))"
    unfolding ab by (rule download_file_origin)
  have "file_origin E url file_path (fst (attempt_body L E info file_path w)) w'"
  proof (cases "snd (attempt_body L E info file_path w)")
    case (Some res)
    then have "w' = fst (attempt_body L E info file_path w)"
      using assms(4,6) by (simp split: prod.splits)
    then show ?thesis by (simp add: file_origin_refl)
  next
    case None
    let ?a = "fst (attempt_body L E info file_path w)"
    let ?w = "if int attempt < m - 1 then log_event (Sleep (2 ^ attempt)) ?a else ?a"
    have w': "w' = fst (retry_loop L E info file_path m rest ?w)"
      using assms(4,6) None by (simp split: prod.splits)
    have "file_origin E url file_path ?a ?w"
      by (simp add: file_origin_refl file_origin_sleep)
    from this retry_loop_origin [OF assms(5), of E file_path ?w L m rest]
    show ?thesis unfolding w' by (rule file_origin_trans)
  qed
  with o1 have "file_origin E url file_path ?deleted w'"
    by (rule file_origin_trans)
  then show ?thesis
    by (auto simp: file_origin_def)
qed

subsection \<open>Paths that a call leaves alone\<close>






subsection \<open>A stale file is removed before the download\<close>

text \<open>
  C3. Let the target file exist and let its validation return not-ok at the start of an
  attempt. If the file can be removed, the attempt unlinks it, the download then starts in
  the world without the file, and the events of the attempt are the unlink followed by the
  GET; so after a request that fails nothing is at the path. If the file cannot be removed,
  the attempt issues no GET and changes nothing. And a call of \<^verbatim>\<open>auto_correct_download\<close>
  that starts with such a file and returns success has begun by removing it and downloading
  again, and the file then on disk is not the stale one: it is a file that one of the GETs
  of this call left there.
\<close>

theorem stale_file_deleted_first:
  assumes "generate_filename L info = Inr filename"
    and "file_path = path_join L download_path filename"
    and "url = (case sw_url info of Some u \<Rightarrow> u | None \<Rightarrow> [])"
    and "expected_size = (case sw_size info of Some n \<Rightarrow> n | None \<Rightarrow> 0)"
    and "fs w file_path = Some f"
    and "validate_file_integrity L (fs w) file_path (sw_hash info) (sw_size info)
           = Inr (False, reason)"
    and "deleted = log_event (Unlink file_path) (w\<lparr>fs := (fs w)(file_path := None)\<rparr>)"
    and "after_call = fst (auto_correct_download L E info download_path max_retries w)"
  shows "(if removable f
          then unlink file_path w = Inr deleted
               \<and> fs deleted file_path = None
               \<and> fst (attempt_body L E info file_path w)
                   = fst (download_file E url file_path expected_size deleted)
               \<and> (E (http_gets w) url = RequestFails e \<longrightarrow>
                     fs (fst (attempt_body L E info file_path w)) file_path = None)
          else attempt_body L E info file_path w = (w, None))
         \<and> new_events w (fst (attempt_body L E info file_path w)) =
             (if removable f then [Unlink file_path, HttpGet url] else [])
         \<and> (snd (auto_correct_download L E info download_path max_retries w) = Inr (True, msg) \<longrightarrow>
              take 2 (new_events w after_call) = [Unlink file_path, HttpGet url]
              \<and> fs after_call file_path \<noteq> Some f
              \<and> (\<exists>k g. http_gets w \<le> k \<and> k < http_gets after_call
                       \<and> fs after_call file_path = Some g \<and> delivered_by E url k g))"
proof (intro conjI)
  have acc: "accessible f"
    using validate_returns_exists [OF assms(5,6)] by simp
  show "if removable f
        then unlink file_path w = Inr deleted
             \<and> fs deleted file_path = None
             \<and> fst (attempt_body L E info file_path w)
                 = fst (download_file E url file_path expected_size deleted)
             \<and> (E (http_gets w) url = RequestFails e \<longrightarrow>
                   fs (fst (attempt_body L E info file_path w)) file_path = None)
        else attempt_body L E info file_path w = (w, None)"
  proof (cases "removable f")
    case True
    have u: "unlink file_path w = Inr deleted"
      using True acc assms(5,7) by (simp add: unlink_def)
    have n: "fs deleted file_path = None"
      by (simp add: assms(7))
    have "check_existing L info file_path w = Inr (deleted, None)"
      using check_existing_removed [OF assms(5,6) True] assms(7) by simp
    then have a: "fst (attempt_body L E info file_path w)
                    = fst (download_file E url file_path expected_size deleted)"
      using assms(3,4) by (simp add: attempt_body_def split: prod.splits sum.splits)
    have "E (http_gets w) url = RequestFails e \<longrightarrow>
            fs (fst (attempt_body L E info file_path w)) file_path = None"
      unfolding a by (simp add: download_file_def assms(7))
    with True u n a show ?thesis by simp
  next
    case False
    with attempt_body_stuck [OF assms(5,6), of E] show ?thesis by simp
  qed
next
  show "new_events w (fst (attempt_body L E info file_path w)) =
          (if removable f then [Unlink file_path, HttpGet url] else [])"
  proof (cases "removable f")
    case True
    with attempt_body_removed [OF assms(5,6), of E] assms(3) show ?thesis
      by (simp add: new_events_def)
  next
    case False
    with attempt_body_stuck [OF assms(5,6), of E] show ?thesis
      by (simp add: new_events_def)
  qed
next
  let ?run = "retry_loop L E info file_path max_retries [0..<nat max_retries] w"
  have acd: "auto_correct_download L E info download_path max_retries w = ?run"
    using assms(1,2) by (simp add: auto_correct_download_def generate_filename_call_def)
  have after: "after_call = fst ?run"
    by (simp add: assms(8) acd)
  show "snd (auto_correct_download L E info download_path max_retries w) = Inr (True, msg) \<longrightarrow>
          take 2 (new_events w after_call) = [Unlink file_path, HttpGet url]
          \<and> fs after_call file_path \<noteq> Some f
          \<and> (\<exists>k g. http_gets w \<le> k \<and> k < http_gets after_call
                   \<and> fs after_call file_path = Some g \<and> delivered_by E url k g)"
  proof
    assume "snd (auto_correct_download L E info download_path max_retries w) = Inr (True, msg)"
    then have ok: "snd ?run = Inr (True, msg)" by (simp add: acd)
    have rem: "removable f"
      using retry_loop_stuck [OF assms(5,6), of E max_retries "[0..<nat max_retries]" msg] ok
      by blast
    obtain attempt rest where xs: "[0..<nat max_retries] = attempt # rest"
      using ok by (cases "[0..<nat max_retries]") auto
    obtain n where n: "sw_name info = Some n"
      using ok xs by (cases "sw_name info") auto
    have ev: "take 2 (new_events w after_call) = [Unlink file_path, HttpGet url]"
      using retry_loop_first_events [OF assms(5,6) rem n, of E max_retries attempt rest] xs assms(3)
      by (simp add: after)
    obtain r where valid:
      "validate_file_integrity L (fs after_call) file_path (sw_hash info) (sw_size info)
         = Inr (True, r)"
      using retry_loop_success_valid [OF ok] after by auto
    then have differs: "fs after_call file_path \<noteq> Some f"
      using assms(5,6)
        validate_depends_on_file [of "fs after_call" file_path "fs w" L "sw_hash info" "sw_size info"]
      by auto
    have present: "fs after_call file_path \<noteq> None"
      using validate_accepts_exists [OF valid]
      by (auto simp: path_exists_def split: option.splits)
    have "fs after_call file_path = None \<or>
          (\<exists>k g. http_gets w \<le> k \<and> k < http_gets after_call
                 \<and> fs after_call file_path = Some g \<and> delivered_by E url k g)"
      using retry_loop_fresh [OF assms(5,6) rem n assms(3), of after_call E max_retries attempt rest]
        after xs by simp
    with present have "\<exists>k g. http_gets w \<le> k \<and> k < http_gets after_call
                 \<and> fs after_call file_path = Some g \<and> delivered_by E url k g"
      by auto
    with ev differs show
      "take 2 (new_events w after_call) = [Unlink file_path, HttpGet url]
       \<and> fs after_call file_path \<noteq> Some f
       \<and> (\<exists>k g. http_gets w \<le> k \<and> k < http_gets after_call
                \<and> fs after_call file_path = Some g \<and> delivered_by E url k g)"
      by blast
  qed
qed

lemma tool_filename: "generate_filename stdlib tool = Inr (ustr ''tool.exe'')"
  by code_simp

lemma tool_path: "ustr ''/d/tool.exe'' = path_join stdlib (ustr ''/d'') (ustr ''tool.exe'')"
  by code_simp

lemma stale_invalid:
  "validate_file_integrity stdlib (fs (disk_with stale_file)) (ustr ''/d/tool.exe'')
     (sw_hash tool) (sw_size tool) = Inr (False, SizeMismatch 3 2)"
  by (simp add: validate_file_integrity_def validate_checks_def path_exists_def disk_with_def
        stale_file_def tool_def Let_def)

lemma good_valid:
  "validate_file_integrity stdlib (fs (disk_with good_file)) (ustr ''/d/tool.exe'')
     (sw_hash tool) (sw_size tool) = Inr (True, FileIntact)"
  by (simp add: validate_file_integrity_def validate_checks_def path_exists_def disk_with_def
        good_file_def tool_def Let_def)

lemma stale_run:
  "snd (auto_correct_download stdlib (serves good_file) tool (ustr ''/d'') 3 (disk_with stale_file))
     = Inr (True, CorrectionSucceeded)"
  by code_simp

theorem stale_file_deleted_first_witness:
  "snd (auto_correct_download stdlib (serves good_file) tool (ustr ''/d'') 3 (disk_with stale_file))
     = Inr (True, CorrectionSucceeded)
   \<and> unlink (ustr ''/d/tool.exe'') (disk_with stale_file)
       = Inr (log_event (Unlink (ustr ''/d/tool.exe''))
               ((disk_with stale_file)\<lparr>fs := (fs (disk_with stale_file))(ustr ''/d/tool.exe'' := None)\<rparr>))
   \<and> fst (attempt_body stdlib (serves good_file) tool (ustr ''/d/tool.exe'') (disk_with stale_file))
       = fst (download_file (serves good_file) (ustr ''http://h/tool.exe'') (ustr ''/d/tool.exe'') 3
               (log_event (Unlink (ustr ''/d/tool.exe''))
                 ((disk_with stale_file)\<lparr>fs := (fs (disk_with stale_file))(ustr ''/d/tool.exe'' := None)\<rparr>)))
   \<and> new_events (disk_with stale_file)
       (fst (attempt_body stdlib (serves good_file) tool (ustr ''/d/tool.exe'') (disk_with stale_file)))
     = [Unlink (ustr ''/d/tool.exe''), HttpGet (ustr ''http://h/tool.exe'')]
   \<and> take 2 (new_events (disk_with stale_file)
       (fst (auto_correct_download stdlib (serves good_file) tool (ustr ''/d'') 3
              (disk_with stale_file))))
     = [Unlink (ustr ''/d/tool.exe''), HttpGet (ustr ''http://h/tool.exe'')]
   \<and> fs (fst (auto_correct_download stdlib (serves good_file) tool (ustr ''/d'') 3
               (disk_with stale_file))) (ustr ''/d/tool.exe'')
     \<noteq> Some stale_file"
proof -
  have u: "ustr ''http://h/tool.exe'' = (case sw_url tool of Some u \<Rightarrow> u | None \<Rightarrow> [])"
    by (simp add: tool_def)
  have s: "(3::int) = (case sw_size tool of Some n \<Rightarrow> n | None \<Rightarrow> 0)"
    by (simp add: tool_def)
  have f: "fs (disk_with stale_file) (ustr ''/d/tool.exe'') = Some stale_file"
    by (simp add: disk_with_def)
  have r: "removable stale_file"
    by (simp add: stale_file_def)
  from r stale_run
    stale_file_deleted_first [OF tool_filename tool_path u s f stale_invalid refl refl,
        of "serves good_file" "OSError []" 3 CorrectionSucceeded]
  show ?thesis
    by auto
qed

subsection \<open>A valid file is kept\<close>

text \<open>
  C4. Let the record have a name and let the validation of the target file return ok when
  an attempt starts (so the file exists). Then that attempt returns success with the message
  "file intact" and leaves the world as it was: no GET is issued and no file is touched. So
  a call with at least one retry that finds such a file returns at once.
\<close>

theorem valid_file_kept:
  assumes "generate_filename L info = Inr filename"
    and "file_path = path_join L download_path filename"
    and "sw_name info = Some n"
    and "validate_file_integrity L (fs w) file_path (sw_hash info) (sw_size info)
           = Inr (True, reason)"
  shows "retry_loop L E info file_path max_retries (attempt # rest) w = (w, Inr (True, FileIntact))
         \<and> (0 < max_retries \<longrightarrow>
              auto_correct_download L E info download_path max_retries w
                = (w, Inr (True, FileIntact)))"
proof
  show loop: "retry_loop L E info file_path max_retries (attempt # rest) w
                = (w, Inr (True, FileIntact))" for attempt rest
    using assms(3) attempt_body_valid [OF assms(4), of E] by simp
  show "0 < max_retries \<longrightarrow>
          auto_correct_download L E info download_path max_retries w = (w, Inr (True, FileIntact))"
  proof
    assume "0 < max_retries"
    then obtain a r where "[0..<nat max_retries] = a # r"
      by (cases "[0..<nat max_retries]") auto
    with loop [of a r] assms(1,2) show
      "auto_correct_download L E info download_path max_retries w = (w, Inr (True, FileIntact))"
      by (simp add: auto_correct_download_def generate_filename_call_def)
  qed
qed

theorem valid_file_kept_witness:
  "retry_loop stdlib (serves stale_file) tool (ustr ''/d/tool.exe'') 3 [1, 2] (disk_with good_file)
     = (disk_with good_file, Inr (True, FileIntact))
   \<and> auto_correct_download stdlib (serves stale_file) tool (ustr ''/d'') 3 (disk_with good_file)
     = (disk_with good_file, Inr (True, FileIntact))"
proof -
  have n: "sw_name tool = Some (ustr ''Tool'')"
    by (simp add: tool_def)
  show ?thesis
    using valid_file_kept [OF tool_filename tool_path n good_valid,
        of "serves stale_file" 3 1 "[2]"]
    by simp
qed

subsection \<open>The same file name every time\<close>



subsection \<open>The batch\<close>

lemma download_each_entries:
  "snd (download_each L E download_path software_data names results w) = Inr results' \<Longrightarrow>
     dom results' = dom results \<union> set names"
proof (induction names arbitrary: results w)
  case Nil
  then show ?case by simp
next
  case (Cons software_name rest)
  show ?case
  proof (cases "software_data software_name")
    case None
    with Cons.prems
    have "snd (download_each L E download_path software_data rest
                 (results(software_name \<mapsto> (False, SoftwareInfoMissing))) w) = Inr results'"
      by simp
    from Cons.IH [OF this]
    have "dom results' = insert software_name (dom results) \<union> set rest"
      by (simp only: dom_fun_upd option.distinct if_False)
    then show ?thesis by auto
  next
    case (Some info)
    obtain w' r where acd: "auto_correct_download L E info download_path 3 w = (w', r)"
      by (cases "auto_correct_download L E info download_path 3 w")
    show ?thesis
    proof (cases r)
      case (Inl e)
      with Some acd Cons.prems show ?thesis by simp
    next
      case (Inr res)
      with Some acd Cons.prems
      have "snd (download_each L E download_path software_data rest
                   (results(software_name \<mapsto> res)) w') = Inr results'"
        by simp
      from Cons.IH [OF this]
      have "dom results' = insert software_name (dom results) \<union> set rest"
        by (simp only: dom_fun_upd option.distinct if_False)
      then show ?thesis by auto
    qed
  qed
qed

text \<open>
  A call of \<^verbatim>\<open>download_software\<close> that returns gives a map with an entry for every
  requested name, and only for those.
\<close>

lemma download_software_entries:
  "snd (download_software L E software_list download_path software_data w) = Inr results \<Longrightarrow>
     dom results = set software_list"
proof -
  assume r: "snd (download_software L E software_list download_path software_data w) = Inr results"
  obtain w1 path_valid path_message
    where c: "correct_path_issues L download_path w = (w1, path_valid, path_message)"
    by (cases "correct_path_issues L download_path w")
  show ?thesis
  proof (cases path_valid)
    case True
    with r c download_each_entries [of L E download_path software_data software_list Map.empty w1 results]
    show ?thesis by (simp add: download_software_def)
  next
    case False
    with r c have "results = map_of (map (\<lambda>software. (software, (False, path_message))) software_list)"
      by (simp add: download_software_def)
    then show ?thesis
      by (simp add: dom_map_of_conv_image_fst image_image)
  qed
qed

text \<open>
  C9 fails on the code. In a batch of two names whose first record has a URL that
  \<^verbatim>\<open>urlparse\<close> rejects, the exception raised in \<^verbatim>\<open>\_generate\_filename\<close> leaves
  \<^verbatim>\<open>download_software\<close>: no result map is returned and the second record is never
  tried (the only event is the unlink of the probe file of \<^verbatim>\<open>correct_path_issues\<close>). The
  same happens with a first record that has no \<^verbatim>\<open>name\<close>, at line 231.
\<close>

theorem batch_aborted_by_one_record:
  "snd (download_software stdlib (serves good_file) [ustr ''Broken'', ustr ''Tool''] (ustr ''/d'')
          catalog (disk_with stale_file)) = Inl (ValueError ''Invalid IPv6 URL'')
   \<and> trace (fst (download_software stdlib (serves good_file) [ustr ''Broken'', ustr ''Tool'']
          (ustr ''/d'') catalog (disk_with stale_file))) = [Unlink (ustr ''/d/test_write.tmp'')]
   \<and> snd (download_software stdlib (serves good_file) [ustr ''Nameless'', ustr ''Tool''] (ustr ''/d'')
          catalog (disk_with stale_file)) = Inl (KeyError ''name'')
   \<and> trace (fst (download_software stdlib (serves good_file) [ustr ''Nameless'', ustr ''Tool'']
          (ustr ''/d'') catalog (disk_with stale_file))) = [Unlink (ustr ''/d/test_write.tmp'')]"
proof -
  have a: "case snd (download_software stdlib (serves good_file) [ustr ''Broken'', ustr ''Tool'']
                  (ustr ''/d'') catalog (disk_with stale_file)) of
             Inl e \<Rightarrow> e = ValueError ''Invalid IPv6 URL'' | Inr results \<Rightarrow> False"
    by code_simp
  have b: "case snd (download_software stdlib (serves good_file) [ustr ''Nameless'', ustr ''Tool'']
                  (ustr ''/d'') catalog (disk_with stale_file)) of
             Inl e \<Rightarrow> e = KeyError ''name'' | Inr results \<Rightarrow> False"
    by code_simp
  have c: "trace (fst (download_software stdlib (serves good_file) [ustr ''Broken'', ustr ''Tool'']
          (ustr ''/d'') catalog (disk_with stale_file))) = [Unlink (ustr ''/d/test_write.tmp'')]"
    by code_simp
  have d: "trace (fst (download_software stdlib (serves good_file) [ustr ''Nameless'', ustr ''Tool'']
          (ustr ''/d'') catalog (disk_with stale_file))) = [Unlink (ustr ''/d/test_write.tmp'')]"
    by code_simp
  from a b c d show ?thesis
    by (simp split: sum.splits)
qed

end
